theory Spec2Isabelle
  imports Complex_Main
begin

section \<open>The store of sks.py\<close>

text \<open>
  The program keeps one SQLite connection with two tables. A table is modelled as
  the list of its rows in rowid order, which is the order a scan without an index
  and without ORDER BY delivers them; every SELECT of the program is such a scan.
  Both tables are declared AUTOINCREMENT, so each carries the largest rowid it ever
  handed out (SQLite's sqlite_sequence) next to its rows.

  The global cursor \<open>c\<close> and connection \<open>conn\<close> become an explicit state that
  every operation takes and returns.

  Values: a customer id is a Python int, a week start is a \<open>datetime.date\<close>
  (stored by the sqlite3 adapter as its ISO text, so two dates are stored equal
  exactly when they are equal), a day is a string, and the three amounts are
  numbers held in REAL columns. Amounts are modelled as exact reals: rounding of
  IEEE doubles and empty (NULL) cells are outside this model.
\<close>

datatype date = Date int int int

record payment =
  pid :: int
  customer_id :: int
  week_start :: date
  day :: string
  total :: real
  received :: real
  balance :: real

record db =
  customers :: "(int \<times> string) list"
  customers_seq :: int
  weekly_payments :: "payment list"
  weekly_payments_seq :: int

text \<open>The data frame of the editor has the columns Day, Total, Received; the frame
  that is saved, read back and printed has the column Balance as well.\<close>

record edit_row =
  Day :: string
  Total :: real
  Received :: real

record week_row = edit_row +
  Balance :: real

text \<open>CREATE TABLE IF NOT EXISTS on a fresh database file: two empty tables.\<close>

definition init_db :: db where
  "init_db = \<lparr>customers = [], customers_seq = 0, weekly_payments = [], weekly_payments_seq = 0\<rparr>"

text \<open>The rowid an AUTOINCREMENT table gives a new row: one more than the largest
  rowid ever used, be it still in the table or only remembered by the sequence.\<close>

definition next_rowid :: "int \<Rightarrow> int list \<Rightarrow> int" where
  "next_rowid seq ids = fold max ids seq + 1"

subsection \<open>Customers\<close>

datatype sql_error = IntegrityError

text \<open>\<open>INSERT INTO customers (name) VALUES (?)\<close>: the column is UNIQUE, so the
  statement raises when the name is already there and changes nothing.\<close>

definition insert_customer :: "string \<Rightarrow> db \<Rightarrow> sql_error + db" where
  "insert_customer name s =
     (if name \<in> set (map snd (customers s)) then Inl IntegrityError
      else (let i = next_rowid (customers_seq s) (map fst (customers s))
            in Inr (s\<lparr>customers := customers s @ [(i, name)], customers_seq := i\<rparr>)))"

text \<open>\<open>add_customer\<close> wraps the insert in \<open>try: ... except: pass\<close>.\<close>

definition add_customer :: "string \<Rightarrow> db \<Rightarrow> db" where
  "add_customer name s = (case insert_customer name s of Inl e \<Rightarrow> s | Inr s' \<Rightarrow> s')"

text \<open>\<open>delete_customer\<close>: first the customer's payment rows, then the customer.\<close>

definition delete_payments_of :: "int \<Rightarrow> db \<Rightarrow> db" where
  "delete_payments_of cid s =
     s\<lparr>weekly_payments := filter (\<lambda>p. \<not> (customer_id p = cid)) (weekly_payments s)\<rparr>"

definition delete_customer_row :: "int \<Rightarrow> db \<Rightarrow> db" where
  "delete_customer_row cid s =
     s\<lparr>customers := filter (\<lambda>r. \<not> (fst r = cid)) (customers s)\<rparr>"

definition delete_customer :: "int \<Rightarrow> db \<Rightarrow> db" where
  "delete_customer cid s = delete_customer_row cid (delete_payments_of cid s)"

text \<open>\<open>SELECT * FROM customers\<close>: the (id, name) tuples.\<close>

definition get_customers :: "db \<Rightarrow> (int \<times> string) list" where
  "get_customers s = customers s"

subsection \<open>Weekly payments\<close>

definition in_week :: "int \<Rightarrow> date \<Rightarrow> payment \<Rightarrow> bool" where
  "in_week cid w p = (customer_id p = cid \<and> week_start p = w)"

definition delete_week :: "int \<Rightarrow> date \<Rightarrow> db \<Rightarrow> db" where
  "delete_week cid w s =
     s\<lparr>weekly_payments := filter (\<lambda>p. \<not> in_week cid w p) (weekly_payments s)\<rparr>"

definition insert_payment :: "int \<Rightarrow> date \<Rightarrow> week_row \<Rightarrow> db \<Rightarrow> db" where
  "insert_payment cid w r s =
     (let i = next_rowid (weekly_payments_seq s) (map pid (weekly_payments s))
      in s\<lparr>weekly_payments := weekly_payments s @
              [\<lparr>pid = i, customer_id = cid, week_start = w, day = Day r,
                total = Total r, received = Received r, balance = Balance r\<rparr>],
           weekly_payments_seq := i\<rparr>)"

text \<open>The loop \<open>for _, row in df.iterrows()\<close> of \<open>save_week_data\<close>.\<close>

fun insert_rows :: "int \<Rightarrow> date \<Rightarrow> week_row list \<Rightarrow> db \<Rightarrow> db" where
  "insert_rows cid w [] s = s"
| "insert_rows cid w (r # rs) s = insert_rows cid w rs (insert_payment cid w r s)"

definition save_week_data :: "int \<Rightarrow> date \<Rightarrow> week_row list \<Rightarrow> db \<Rightarrow> db" where
  "save_week_data cid w df s = insert_rows cid w df (delete_week cid w s)"

text \<open>SELECT DISTINCT keeps the first occurrence of each value of the scan.\<close>

fun distinct_vals :: "'a list \<Rightarrow> 'a list \<Rightarrow> 'a list" where
  "distinct_vals seen [] = []"
| "distinct_vals seen (x # xs) =
     (if x \<in> set seen then distinct_vals seen xs else x # distinct_vals (x # seen) xs)"

definition get_weeks_for_customer :: "int \<Rightarrow> db \<Rightarrow> date list" where
  "get_weeks_for_customer cid s =
     distinct_vals [] (map week_start (filter (\<lambda>p. customer_id p = cid) (weekly_payments s)))"

definition frame_row :: "payment \<Rightarrow> week_row" where
  "frame_row p = \<lparr>Day = day p, Total = total p, Received = received p, Balance = balance p\<rparr>"

definition get_week_data :: "int \<Rightarrow> date \<Rightarrow> db \<Rightarrow> week_row list" where
  "get_week_data cid w s = map frame_row (filter (in_week cid w) (weekly_payments s))"

subsection \<open>The balance column and its sum\<close>

text \<open>\<open>temp_df["Balance"] = temp_df["Total"] - temp_df["Received"]\<close>: the two
  columns are taken out of the frame, subtracted element by element, and the
  result is attached to the frame as a new column.\<close>

definition column_sub :: "real list \<Rightarrow> real list \<Rightarrow> real list" where
  "column_sub xs ys = map (\<lambda>(x, y). x - y) (zip xs ys)"

definition set_Balance :: "edit_row list \<Rightarrow> real list \<Rightarrow> week_row list" where
  "set_Balance df col =
     map (\<lambda>(r, b). \<lparr>Day = Day r, Total = Total r, Received = Received r, Balance = b\<rparr>)
       (zip df col)"

definition add_Balance :: "edit_row list \<Rightarrow> week_row list" where
  "add_Balance temp_df =
     set_Balance temp_df (column_sub (map Total temp_df) (map Received temp_df))"

text \<open>\<open>df["Balance"].sum()\<close>, as the invoice and both metrics compute it: the
  column is added up from zero.\<close>

definition Balance_sum :: "week_row list \<Rightarrow> real" where
  "Balance_sum df = foldl (\<lambda>acc b. acc + b) 0 (map Balance df)"

subsection \<open>Sequences of calls\<close>

datatype op =
  AddCustomer string
| DeleteCustomer int
| SaveWeek int date "week_row list"

fun apply_op :: "op \<Rightarrow> db \<Rightarrow> db" where
  "apply_op (AddCustomer n) s = add_customer n s"
| "apply_op (DeleteCustomer cid) s = delete_customer cid s"
| "apply_op (SaveWeek cid w df) s = save_week_data cid w df s"

fun run :: "op list \<Rightarrow> db \<Rightarrow> db" where
  "run [] s = s"
| "run (x # xs) s = run xs (apply_op x s)"

subsection \<open>Properties of a store\<close>

text \<open>The UNIQUE constraint of customers.name.\<close>

definition names_unique :: "db \<Rightarrow> bool" where
  "names_unique s = distinct (map snd (customers s))"

text \<open>Every payment row names a customer of the customers table.\<close>

definition referential_integrity :: "db \<Rightarrow> bool" where
  "referential_integrity s =
     list_all (\<lambda>p. customer_id p \<in> set (map fst (customers s))) (weekly_payments s)"

text \<open>No payment row holds a negative total or received amount.\<close>

definition amounts_nonneg :: "db \<Rightarrow> bool" where
  "amounts_nonneg s = list_all (\<lambda>p. 0 \<le> total p \<and> 0 \<le> received p) (weekly_payments s)"

definition rows_nonneg :: "week_row list \<Rightarrow> bool" where
  "rows_nonneg df = list_all (\<lambda>r. 0 \<le> Total r \<and> 0 \<le> Received r) df"

text \<open>Every frame that a sequence of calls saves is free of negative amounts.\<close>

fun saves_nonneg :: "op list \<Rightarrow> bool" where
  "saves_nonneg [] = True"
| "saves_nonneg (SaveWeek cid w df # xs) = (rows_nonneg df \<and> saves_nonneg xs)"
| "saves_nonneg (x # xs) = saves_nonneg xs"

text \<open>Every save of a sequence of calls is for a customer who is in the customers
  table at the moment of that call.\<close>

fun saves_existing :: "op list \<Rightarrow> db \<Rightarrow> bool" where
  "saves_existing [] s = True"
| "saves_existing (SaveWeek cid w df # xs) s =
     (cid \<in> set (map fst (customers s)) \<and> saves_existing xs (save_week_data cid w df s))"
| "saves_existing (x # xs) s = saves_existing xs (apply_op x s)"

text \<open>The frames of the scenarios: a full week, and three rows saved over it.\<close>

definition week_2024_06_03 :: date where
  "week_2024_06_03 = Date 2024 6 3"

definition seven_edit_rows :: "edit_row list" where
  "seven_edit_rows =
     [\<lparr>Day = ''Mon'', Total = 100, Received = 40\<rparr>,
      \<lparr>Day = ''Tue'', Total = 50, Received = 50\<rparr>,
      \<lparr>Day = ''Wed'', Total = 0, Received = 0\<rparr>,
      \<lparr>Day = ''Thu'', Total = 0, Received = 0\<rparr>,
      \<lparr>Day = ''Fri'', Total = 0, Received = 0\<rparr>,
      \<lparr>Day = ''Sat'', Total = 0, Received = 0\<rparr>,
      \<lparr>Day = ''Sun'', Total = 0, Received = 0\<rparr>]"

definition three_rows :: "week_row list" where
  "three_rows =
     [\<lparr>Day = ''Mon'', Total = 10, Received = 0, Balance = 10\<rparr>,
      \<lparr>Day = ''Tue'', Total = 20, Received = 25, Balance = - 5\<rparr>,
      \<lparr>Day = ''Wed'', Total = 0, Received = 0, Balance = 0\<rparr>]"

definition ravi_db :: db where
  "ravi_db = save_week_data 1 week_2024_06_03 (add_Balance seven_edit_rows)
               (add_customer ''Ravi'' init_db)"

section \<open>Saving and reading a week\<close>

lemma insert_payment_customers [simp]:
  "customers (insert_payment cid w r s) = customers s"
  "customers_seq (insert_payment cid w r s) = customers_seq s"
  by (simp_all add: insert_payment_def Let_def)

lemma insert_rows_customers [simp]:
  "customers (insert_rows cid w df s) = customers s"
  "customers_seq (insert_rows cid w df s) = customers_seq s"
  by (induction df arbitrary: s) simp_all

lemma delete_week_customers [simp]:
  "customers (delete_week cid w s) = customers s"
  "customers_seq (delete_week cid w s) = customers_seq s"
  by (simp_all add: delete_week_def)

text \<open>What the loop of \<open>save_week_data\<close> does to the table: it appends one row
  per frame row, each under the key of the call and with the frame row's values.\<close>

lemma insert_rows_appends:
  "\<exists>new. weekly_payments (insert_rows cid w df s) = weekly_payments s @ new
     \<and> map frame_row new = df \<and> list_all (in_week cid w) new"
proof (induction df arbitrary: s)
  case Nil
  show ?case by simp
next
  case (Cons r df)
  obtain new where new:
    "weekly_payments (insert_rows cid w df (insert_payment cid w r s))
       = weekly_payments (insert_payment cid w r s) @ new"
    "map frame_row new = df" "list_all (in_week cid w) new"
    using Cons.IH by blast
  define p where "p = \<lparr>pid = next_rowid (weekly_payments_seq s) (map pid (weekly_payments s)),
       customer_id = cid, week_start = w, day = Day r,
       total = Total r, received = Received r, balance = Balance r\<rparr>"
  have ins: "weekly_payments (insert_payment cid w r s) = weekly_payments s @ [p]"
    by (simp add: insert_payment_def Let_def p_def)
  have "frame_row p = r" "in_week cid w p"
    by (simp_all add: frame_row_def in_week_def p_def)
  with new ins have
    "weekly_payments (insert_rows cid w (r # df) s) = weekly_payments s @ (p # new)
       \<and> map frame_row (p # new) = r # df \<and> list_all (in_week cid w) (p # new)"
    by simp
  then show ?case by (rule exI [of _ "p # new"])
qed

lemma filter_in_week_all:
  "list_all (in_week cid w) new \<Longrightarrow> filter (in_week cid w) new = new"
  by (induction new) simp_all

lemma get_week_data_insert_rows:
  "get_week_data cid w (insert_rows cid w df s) = get_week_data cid w s @ df"
proof -
  obtain new where
    "weekly_payments (insert_rows cid w df s) = weekly_payments s @ new"
    "map frame_row new = df" "list_all (in_week cid w) new"
    using insert_rows_appends by blast
  then show ?thesis
    by (simp add: get_week_data_def filter_in_week_all)
qed

lemma get_week_data_delete_week:
  "get_week_data cid w (delete_week cid w s) = []"
  by (simp add: get_week_data_def delete_week_def)

text \<open>
  C1. Whatever the store held before, reading the week (cid, w) right after saving
  the frame df under that key gives back df: the same rows (day, total, received,
  balance) in the same order, and nothing of what was stored for the key before.
\<close>

theorem save_then_get_week:
  "get_week_data cid w (save_week_data cid w df s) = df"
proof -
  have "get_week_data cid w (save_week_data cid w df s)
          = get_week_data cid w (delete_week cid w s) @ df"
    unfolding save_week_data_def by (rule get_week_data_insert_rows)
  then show ?thesis by (simp add: get_week_data_delete_week)
qed

text \<open>The scenario of C1: three rows saved over the seven rows of the same week.\<close>

theorem save_then_get_week_witness:
  "length (get_week_data 1 week_2024_06_03 ravi_db) = 7
   \<and> get_week_data 1 week_2024_06_03 (save_week_data 1 week_2024_06_03 three_rows ravi_db)
       = three_rows"
proof -
  have "get_week_data 1 week_2024_06_03 ravi_db = add_Balance seven_edit_rows"
    unfolding ravi_db_def by (rule save_then_get_week)
  then have "length (get_week_data 1 week_2024_06_03 ravi_db) = 7"
    by (simp add: add_Balance_def set_Balance_def column_sub_def seven_edit_rows_def)
  then show ?thesis
    using save_then_get_week [of 1 week_2024_06_03 three_rows ravi_db] by simp
qed

text \<open>
  C2. Saving the same frame twice in a row under the same key leaves the week, as
  \<open>get_week_data\<close> reads it, as it was after the first save.
\<close>

theorem save_twice_same_week:
  "get_week_data cid w (save_week_data cid w df (save_week_data cid w df s))
     = get_week_data cid w (save_week_data cid w df s)"
proof -
  have "get_week_data cid w (save_week_data cid w df s') = df" for s'
    by (simp add: save_week_data_def get_week_data_insert_rows get_week_data_delete_week)
  then show ?thesis by simp
qed

section \<open>Deleting a customer\<close>

lemma weekly_payments_delete_customer:
  "weekly_payments (delete_customer cid s)
     = filter (\<lambda>p. \<not> (customer_id p = cid)) (weekly_payments s)"
  by (simp add: delete_customer_def delete_customer_row_def delete_payments_of_def)

lemma customers_delete_customer:
  "customers (delete_customer cid s) = filter (\<lambda>r. \<not> (fst r = cid)) (customers s)"
  by (simp add: delete_customer_def delete_customer_row_def delete_payments_of_def)

lemma filter_customer_after_delete:
  "filter (\<lambda>p. customer_id p = cid) (weekly_payments (delete_customer cid s)) = []"
  by (simp add: weekly_payments_delete_customer)

lemma filter_in_week_after_delete:
  "filter (in_week cid w) (weekly_payments (delete_customer cid s)) = []"
  by (simp add: weekly_payments_delete_customer in_week_def)

text \<open>
  C6. After \<open>delete_customer cid\<close>, from any store, the list of weeks of cid is
  empty and the frame of every week of cid is empty: both reads return, and what
  they return is the empty result.
\<close>

theorem delete_customer_then_read:
  "get_weeks_for_customer cid (delete_customer cid s) = []
   \<and> (\<forall>w. get_week_data cid w (delete_customer cid s) = [])"
  by (simp add: get_weeks_for_customer_def get_week_data_def
      filter_customer_after_delete filter_in_week_after_delete)

text \<open>The scenario of C6: customer 1 had a week recorded, and is deleted.\<close>

theorem delete_customer_then_read_witness:
  "get_weeks_for_customer 1 ravi_db = [week_2024_06_03]
   \<and> get_weeks_for_customer 1 (delete_customer 1 ravi_db) = []
   \<and> get_week_data 1 week_2024_06_03 (delete_customer 1 ravi_db) = []"
proof -
  have "get_weeks_for_customer 1 ravi_db = [week_2024_06_03]"
    by (simp add: get_weeks_for_customer_def ravi_db_def save_week_data_def delete_week_def
        add_customer_def insert_customer_def init_db_def next_rowid_def Let_def
        add_Balance_def set_Balance_def column_sub_def seven_edit_rows_def
        insert_payment_def in_week_def week_2024_06_03_def)
  then show ?thesis
    using delete_customer_then_read [of 1 ravi_db] by simp
qed

section \<open>What a save leaves alone\<close>

lemma filter_other_insert_rows:
  assumes "\<And>p. in_week cid w p \<Longrightarrow> \<not> P p"
  shows "filter P (weekly_payments (insert_rows cid w df s)) = filter P (weekly_payments s)"
proof -
  obtain new where new:
    "weekly_payments (insert_rows cid w df s) = weekly_payments s @ new"
    "list_all (in_week cid w) new"
    using insert_rows_appends by blast
  have "filter P new = []"
    using new(2) assms by (induction new) simp_all
  with new(1) show ?thesis by simp
qed

lemma filter_other_delete_week:
  assumes "\<And>p. in_week cid w p \<Longrightarrow> \<not> P p"
  shows "filter P (weekly_payments (delete_week cid w s)) = filter P (weekly_payments s)"
proof -
  have "filter P (filter (\<lambda>p. \<not> in_week cid w p) xs) = filter P xs" for xs
    using assms by (induction xs) auto
  then show ?thesis by (simp add: delete_week_def)
qed

lemma filter_other_save_week_data:
  assumes "\<And>p. in_week cid w p \<Longrightarrow> \<not> P p"
  shows "filter P (weekly_payments (save_week_data cid w df s)) = filter P (weekly_payments s)"
  using assms
  by (simp add: save_week_data_def filter_other_insert_rows filter_other_delete_week)

lemma customers_save_week_data [simp]:
  "customers (save_week_data cid w df s) = customers s"
  "customers_seq (save_week_data cid w df s) = customers_seq s"
  by (simp_all add: save_week_data_def)

text \<open>
  C10. \<open>save_week_data cid w df\<close> changes nothing outside the key (cid, w): the
  customers table and its sequence are as before, the payment rows of every other
  key are the same rows (ids included) in the same order, and so every other week
  reads as before, as does the list of weeks of every other customer.
\<close>

theorem save_week_data_frame:
  "customers (save_week_data cid w df s) = customers s
   \<and> customers_seq (save_week_data cid w df s) = customers_seq s
   \<and> get_customers (save_week_data cid w df s) = get_customers s
   \<and> filter (\<lambda>p. \<not> in_week cid w p) (weekly_payments (save_week_data cid w df s))
       = filter (\<lambda>p. \<not> in_week cid w p) (weekly_payments s)
   \<and> ((cid', w') \<noteq> (cid, w) \<longrightarrow>
        get_week_data cid' w' (save_week_data cid w df s) = get_week_data cid' w' s)
   \<and> (cid' \<noteq> cid \<longrightarrow>
        get_weeks_for_customer cid' (save_week_data cid w df s)
          = get_weeks_for_customer cid' s)"
proof -
  have a: "filter (\<lambda>p. \<not> in_week cid w p) (weekly_payments (save_week_data cid w df s))
       = filter (\<lambda>p. \<not> in_week cid w p) (weekly_payments s)"
    by (rule filter_other_save_week_data) simp
  have b: "get_week_data cid' w' (save_week_data cid w df s) = get_week_data cid' w' s"
    if "(cid', w') \<noteq> (cid, w)"
  proof -
    have "filter (in_week cid' w') (weekly_payments (save_week_data cid w df s))
       = filter (in_week cid' w') (weekly_payments s)"
      by (rule filter_other_save_week_data) (use that in \<open>auto simp: in_week_def\<close>)
    then show ?thesis by (simp add: get_week_data_def)
  qed
  have c: "get_weeks_for_customer cid' (save_week_data cid w df s)
          = get_weeks_for_customer cid' s" if "cid' \<noteq> cid"
  proof -
    have "filter (\<lambda>p. customer_id p = cid') (weekly_payments (save_week_data cid w df s))
       = filter (\<lambda>p. customer_id p = cid') (weekly_payments s)"
      by (rule filter_other_save_week_data) (use that in \<open>auto simp: in_week_def\<close>)
    then show ?thesis by (simp add: get_weeks_for_customer_def)
  qed
  from a b c show ?thesis by (simp add: get_customers_def)
qed

text \<open>The scenario of C10: a save for customer 1 and one week, with another week
  of customer 1 and the customer list observed.\<close>

theorem save_week_data_frame_witness:
  "(1, Date 2024 6 10) \<noteq> (1, week_2024_06_03)
   \<and> get_week_data 1 (Date 2024 6 10)
        (save_week_data 1 week_2024_06_03 three_rows
          (save_week_data 1 (Date 2024 6 10) three_rows ravi_db)) = three_rows
   \<and> (2::int) \<noteq> 1
   \<and> get_weeks_for_customer 2 (save_week_data 1 week_2024_06_03 three_rows ravi_db) = []
   \<and> get_customers (save_week_data 1 week_2024_06_03 three_rows ravi_db) = [(1, ''Ravi'')]"
proof -
  have k: "(1, Date 2024 6 10) \<noteq> (1::int, week_2024_06_03)"
    by (simp add: week_2024_06_03_def)
  have a: "get_week_data 1 (Date 2024 6 10)
        (save_week_data 1 (Date 2024 6 10) three_rows ravi_db) = three_rows"
    by (simp add: save_week_data_def get_week_data_insert_rows get_week_data_delete_week)
  have "filter (\<lambda>p. customer_id p = 2) (weekly_payments ravi_db) = []"
    by (simp add: ravi_db_def save_week_data_def delete_week_def
        add_customer_def insert_customer_def init_db_def next_rowid_def Let_def
        add_Balance_def set_Balance_def column_sub_def seven_edit_rows_def
        insert_payment_def in_week_def)
  then have b: "get_weeks_for_customer 2 ravi_db = []"
    by (simp add: get_weeks_for_customer_def)
  have c: "get_customers ravi_db = [(1, ''Ravi'')]"
    by (simp add: get_customers_def ravi_db_def
        add_customer_def insert_customer_def init_db_def next_rowid_def)
  from k a b c
    save_week_data_frame [of 1 week_2024_06_03 three_rows
      "save_week_data 1 (Date 2024 6 10) three_rows ravi_db" 1 "Date 2024 6 10"]
    save_week_data_frame [of 1 week_2024_06_03 three_rows ravi_db 2 week_2024_06_03]
  show ?thesis by simp
qed

section \<open>Adding a customer\<close>

lemma add_customer_existing:
  "n \<in> set (map snd (customers s)) \<Longrightarrow> add_customer n s = s"
  by (simp add: add_customer_def insert_customer_def)

lemma add_customer_new:
  "n \<notin> set (map snd (customers s)) \<Longrightarrow>
   customers (add_customer n s)
     = customers s @ [(next_rowid (customers_seq s) (map fst (customers s)), n)]"
  by (simp add: add_customer_def insert_customer_def Let_def)

lemma weekly_payments_add_customer [simp]:
  "weekly_payments (add_customer n s) = weekly_payments s"
  by (simp add: add_customer_def insert_customer_def Let_def)

lemma count_name_absent:
  "n \<notin> set (map snd xs) \<Longrightarrow> filter (\<lambda>r. snd r = n) xs = []"
  by (induction xs) auto

lemma count_name_present:
  "distinct (map snd xs) \<Longrightarrow> n \<in> set (map snd xs) \<Longrightarrow>
   length (filter (\<lambda>r. snd r = n) xs) = 1"
proof (induction xs)
  case Nil
  then show ?case by simp
next
  case (Cons x xs)
  show ?case
  proof (cases "snd x = n")
    case True
    with Cons.prems have "n \<notin> set (map snd xs)" by auto
    with True show ?thesis by (simp add: count_name_absent)
  next
    case False
    with Cons show ?thesis by auto
  qed
qed

lemma add_customer_member:
  "n \<in> set (map snd (customers (add_customer n s)))"
  by (cases "n \<in> set (map snd (customers s))")
    (simp_all add: add_customer_existing add_customer_new)

lemma names_unique_add_customer:
  "names_unique s \<Longrightarrow> names_unique (add_customer n s)"
  by (cases "n \<in> set (map snd (customers s))")
    (simp_all add: names_unique_def add_customer_existing add_customer_new)

text \<open>
  C5. When a customer named n is already in the table, the INSERT of
  \<open>add_customer n\<close> raises, the handler swallows it, and \<open>add_customer\<close> returns
  with the store, hence the customer list, exactly as it was. So in a store that
  respects the UNIQUE constraint on names, two calls of \<open>add_customer n\<close> leave
  exactly one customer named n in \<open>get_customers\<close>.
\<close>

theorem add_customer_duplicate:
  "(n \<in> set (map snd (get_customers s)) \<longrightarrow>
      insert_customer n s = Inl IntegrityError \<and> add_customer n s = s
      \<and> get_customers (add_customer n s) = get_customers s)
   \<and> (names_unique s \<longrightarrow>
      length (filter (\<lambda>r. snd r = n) (get_customers (add_customer n (add_customer n s)))) = 1)"
proof -
  have dup: "insert_customer n s = Inl IntegrityError \<and> add_customer n s = s"
    if "n \<in> set (map snd (get_customers s))"
    using that by (simp add: get_customers_def add_customer_def insert_customer_def)
  have twice: "add_customer n (add_customer n s) = add_customer n s"
    by (rule add_customer_existing) (rule add_customer_member)
  have one: "length (filter (\<lambda>r. snd r = n) (customers (add_customer n s))) = 1"
    if "names_unique s"
    by (rule count_name_present)
      (use that names_unique_add_customer [of s n] in \<open>simp add: names_unique_def\<close>,
        rule add_customer_member)
  from dup twice one show ?thesis by (simp add: get_customers_def)
qed

text \<open>The scenario of C5: "Acme" is added twice to the empty store.\<close>

theorem add_customer_duplicate_witness:
  "''Acme'' \<in> set (map snd (get_customers (add_customer ''Acme'' init_db)))
   \<and> names_unique init_db
   \<and> insert_customer ''Acme'' (add_customer ''Acme'' init_db) = Inl IntegrityError
   \<and> get_customers (add_customer ''Acme'' (add_customer ''Acme'' init_db)) = [(1, ''Acme'')]
   \<and> length (filter (\<lambda>r. snd r = ''Acme'')
        (get_customers (add_customer ''Acme'' (add_customer ''Acme'' init_db)))) = 1"
proof -
  have s1: "add_customer ''Acme'' init_db
      = \<lparr>customers = [(1, ''Acme'')], customers_seq = 1, weekly_payments = [],
         weekly_payments_seq = 0\<rparr>"
    by (simp add: add_customer_def insert_customer_def init_db_def next_rowid_def)
  have h1: "''Acme'' \<in> set (map snd (get_customers (add_customer ''Acme'' init_db)))"
    by (simp add: s1 get_customers_def)
  have h2: "names_unique init_db"
    by (simp add: names_unique_def init_db_def)
  from h1 h2 add_customer_duplicate [of "''Acme''" "add_customer ''Acme'' init_db"]
    add_customer_duplicate [of "''Acme''" init_db]
  show ?thesis by (simp add: s1 get_customers_def)
qed

section \<open>The balance column and the pending total\<close>

lemma add_Balance_map:
  "add_Balance df =
     map (\<lambda>r. \<lparr>Day = Day r, Total = Total r, Received = Received r,
               Balance = Total r - Received r\<rparr>) df"
  by (induction df) (simp_all add: add_Balance_def set_Balance_def column_sub_def)

text \<open>
  C3. The Balance column that the editor's frame receives holds, row by row, exactly
  Total - Received of that row; the other columns are untouched and no row is added
  or dropped. There is no case distinction: where Received exceeds Total the
  difference is negative and is what the column holds.
\<close>

theorem balance_column:
  "length (add_Balance df) = length df
   \<and> (\<forall>i<length df.
        Day (add_Balance df ! i) = Day (df ! i)
        \<and> Total (add_Balance df ! i) = Total (df ! i)
        \<and> Received (add_Balance df ! i) = Received (df ! i)
        \<and> Balance (add_Balance df ! i) = Total (df ! i) - Received (df ! i)
        \<and> (Total (df ! i) < Received (df ! i) \<longrightarrow> Balance (add_Balance df ! i) < 0))"
  by (simp add: add_Balance_map)

text \<open>The scenario of C3: an overpaid Tuesday.\<close>

theorem balance_column_witness:
  "(1::nat) < length [\<lparr>Day = ''Mon'', Total = 100, Received = 40\<rparr>,
                      \<lparr>Day = ''Tue'', Total = 50, Received = 80\<rparr>]
   \<and> Balance (add_Balance [\<lparr>Day = ''Mon'', Total = 100, Received = 40\<rparr>,
                            \<lparr>Day = ''Tue'', Total = 50, Received = 80\<rparr>] ! 1) = - 30
   \<and> Balance (add_Balance [\<lparr>Day = ''Mon'', Total = 100, Received = 40\<rparr>,
                            \<lparr>Day = ''Tue'', Total = 50, Received = 80\<rparr>] ! 1) < 0"
  using balance_column [of "[\<lparr>Day = ''Mon'', Total = 100, Received = 40\<rparr>,
                            \<lparr>Day = ''Tue'', Total = 50, Received = 80\<rparr>]",
      THEN conjunct2, rule_format, of 1]
  by simp

lemma foldl_add_sum_list:
  "foldl (\<lambda>acc b. acc + b) a xs = a + sum_list xs" for a :: real
  by (induction xs arbitrary: a) simp_all

text \<open>
  C4. The pending total \<open>df["Balance"].sum()\<close> is the sum of the Balance column
  over all rows of the frame, and 0 for the frame without rows.
\<close>

theorem Balance_sum_is_sum:
  "Balance_sum df = (\<Sum>r\<leftarrow>df. Balance r) \<and> Balance_sum [] = 0"
  by (simp add: Balance_sum_def foldl_add_sum_list)

text \<open>The scenario of C4: the week of Ravi, with balances 60, 0, 0, 0, 0, 0, 0.\<close>

theorem Balance_sum_is_sum_witness:
  "Balance_sum (add_Balance seven_edit_rows) = 60"
  using Balance_sum_is_sum [of "add_Balance seven_edit_rows"]
  by (simp add: add_Balance_map seven_edit_rows_def)

section \<open>What every sequence of calls keeps\<close>

subsection \<open>Rows stay in rowid order\<close>

text \<open>A new row gets a rowid above every rowid of its table, so appending it keeps
  the list of rows in rowid order: the list is the scan order of the table.\<close>

lemma fold_max_start: "seq \<le> fold max ids seq" for seq :: int
proof (induction ids arbitrary: seq)
  case Nil
  show ?case by simp
next
  case (Cons i ids)
  have "seq \<le> max i seq" by simp
  also have "\<dots> \<le> fold max ids (max i seq)" by (rule Cons.IH)
  finally show ?case by simp
qed

lemma fold_max_member: "x \<in> set ids \<Longrightarrow> x \<le> fold max ids seq" for seq :: int
proof (induction ids arbitrary: seq)
  case Nil
  then show ?case by simp
next
  case (Cons i ids)
  show ?case
  proof (cases "x = i")
    case True
    have "x \<le> max i seq" using True by simp
    also have "\<dots> \<le> fold max ids (max i seq)" by (rule fold_max_start)
    finally show ?thesis by simp
  next
    case False
    with Cons.prems have "x \<in> set ids" by simp
    then show ?thesis using Cons.IH by simp
  qed
qed

lemma next_rowid_fresh: "x \<in> set ids \<Longrightarrow> x < next_rowid seq ids"
  using fold_max_member [of x ids seq] by (simp add: next_rowid_def)

lemma rowid_order_insert_payment:
  "sorted_wrt (<) (map pid (weekly_payments s)) \<Longrightarrow>
   sorted_wrt (<) (map pid (weekly_payments (insert_payment cid w r s)))"
  by (simp add: insert_payment_def Let_def sorted_wrt_append next_rowid_fresh)

lemma rowid_order_insert_rows:
  "sorted_wrt (<) (map pid (weekly_payments s)) \<Longrightarrow>
   sorted_wrt (<) (map pid (weekly_payments (insert_rows cid w df s)))"
  by (induction df arbitrary: s) (simp_all add: rowid_order_insert_payment)

lemma rowid_order_save_week_data:
  assumes "sorted_wrt (<) (map pid (weekly_payments s))"
  shows "sorted_wrt (<) (map pid (weekly_payments (save_week_data cid w df s)))"
proof -
  from assms have "sorted_wrt (<) (map pid (weekly_payments (delete_week cid w s)))"
    by (simp add: delete_week_def sorted_wrt_map sorted_wrt_filter)
  then show ?thesis
    unfolding save_week_data_def by (rule rowid_order_insert_rows)
qed

subsection \<open>Names stay unique\<close>

lemma names_unique_delete_customer:
  "names_unique s \<Longrightarrow> names_unique (delete_customer cid s)"
  by (simp add: names_unique_def customers_delete_customer distinct_map_filter)

lemma names_unique_save_week_data:
  "names_unique s \<Longrightarrow> names_unique (save_week_data cid w df s)"
  by (simp add: names_unique_def)

lemma names_unique_run:
  "names_unique s \<Longrightarrow> names_unique (run ops s)"
proof (induction ops arbitrary: s)
  case Nil
  then show ?case by simp
next
  case (Cons x xs)
  then show ?case
    by (cases x)
      (simp_all add: names_unique_add_customer names_unique_delete_customer
        names_unique_save_week_data)
qed

subsection \<open>Amounts stay non-negative\<close>

lemma weekly_payments_save_week_data:
  "\<exists>new. weekly_payments (save_week_data cid w df s)
        = filter (\<lambda>p. \<not> in_week cid w p) (weekly_payments s) @ new
     \<and> map frame_row new = df \<and> list_all (in_week cid w) new"
  using insert_rows_appends [of cid w df "delete_week cid w s"]
  by (simp add: save_week_data_def delete_week_def)

lemma list_all_filter_keeps: "list_all P xs \<Longrightarrow> list_all P (filter Q xs)"
  by (induction xs) simp_all

lemma total_frame_row [simp]:
  "Total (frame_row p) = total p" "Received (frame_row p) = received p"
  by (simp_all add: frame_row_def)

lemma amounts_nonneg_save_week_data:
  assumes "amounts_nonneg s" "rows_nonneg df"
  shows "amounts_nonneg (save_week_data cid w df s)"
proof -
  obtain new where new:
    "weekly_payments (save_week_data cid w df s)
        = filter (\<lambda>p. \<not> in_week cid w p) (weekly_payments s) @ new"
    "map frame_row new = df"
    using weekly_payments_save_week_data by blast
  from assms(2) new(2) have "list_all (\<lambda>p. 0 \<le> total p \<and> 0 \<le> received p) new"
    unfolding rows_nonneg_def by (induction new arbitrary: df) auto
  with assms(1) new(1) show ?thesis
    by (simp add: amounts_nonneg_def list_all_filter_keeps)
qed

lemma amounts_nonneg_delete_customer:
  "amounts_nonneg s \<Longrightarrow> amounts_nonneg (delete_customer cid s)"
  by (simp add: amounts_nonneg_def weekly_payments_delete_customer list_all_filter_keeps)

lemma amounts_nonneg_add_customer:
  "amounts_nonneg s \<Longrightarrow> amounts_nonneg (add_customer n s)"
  by (simp add: amounts_nonneg_def)

text \<open>
  C7. No stored payment row has a negative total or received amount, on the
  precondition that no frame passed to \<open>save_week_data\<close> has a negative Total or
  Received (the editor's columns are configured with \<open>min_value=0\<close>;
  \<open>save_week_data\<close> itself stores what it is given and has no branch that refuses
  a row): from a store without negative total or received amounts, no sequence of
  \<open>add_customer\<close>, \<open>delete_customer\<close> and \<open>save_week_data\<close> calls with such
  frames reaches a store with one.
\<close>

theorem stored_amounts_nonneg:
  "amounts_nonneg s \<Longrightarrow> saves_nonneg ops \<Longrightarrow> amounts_nonneg (run ops s)"
proof (induction ops arbitrary: s)
  case Nil
  then show ?case by simp
next
  case (Cons x xs)
  then show ?case
    by (cases x)
      (simp_all add: amounts_nonneg_add_customer amounts_nonneg_delete_customer
        amounts_nonneg_save_week_data)
qed

text \<open>The scenario of C7: the week of Ravi saved, saved over, and the customer deleted.\<close>

theorem stored_amounts_nonneg_witness:
  "amounts_nonneg init_db
   \<and> saves_nonneg [AddCustomer ''Ravi'', SaveWeek 1 week_2024_06_03 (add_Balance seven_edit_rows),
        SaveWeek 1 week_2024_06_03 three_rows, DeleteCustomer 1]
   \<and> amounts_nonneg (run [AddCustomer ''Ravi'',
        SaveWeek 1 week_2024_06_03 (add_Balance seven_edit_rows),
        SaveWeek 1 week_2024_06_03 three_rows, DeleteCustomer 1] init_db)"
proof -
  have h1: "amounts_nonneg init_db"
    by (simp add: amounts_nonneg_def init_db_def)
  have h2: "saves_nonneg [AddCustomer ''Ravi'',
        SaveWeek 1 week_2024_06_03 (add_Balance seven_edit_rows),
        SaveWeek 1 week_2024_06_03 three_rows, DeleteCustomer 1]"
    by (simp add: rows_nonneg_def add_Balance_map seven_edit_rows_def three_rows_def)
  from h1 h2 stored_amounts_nonneg [OF h1 h2] show ?thesis by simp
qed

subsection \<open>Payment rows and their customers\<close>

text \<open>
  C9 as stated fails. The FOREIGN KEY clause of \<open>weekly_payments\<close> is not enforced
  (the program never switches \<open>PRAGMA foreign_keys\<close> on) and \<open>save_week_data\<close> makes
  no check of its own: called on the empty store for customer 1, it stores rows
  that name a customer who is not in the customers table.
\<close>

theorem save_for_missing_customer_dangles:
  "\<not> referential_integrity (run [SaveWeek 1 week_2024_06_03 three_rows] init_db)"
  by (simp add: referential_integrity_def save_week_data_def delete_week_def init_db_def
      three_rows_def insert_payment_def Let_def)

lemma referential_integrity_add_customer:
  "referential_integrity s \<Longrightarrow> referential_integrity (add_customer n s)"
proof (cases "n \<in> set (map snd (customers s))")
  case True
  assume "referential_integrity s"
  with True show ?thesis by (simp add: add_customer_existing)
next
  case False
  assume "referential_integrity s"
  with False show ?thesis
    by (simp add: referential_integrity_def add_customer_new list_all_iff)
qed

lemma referential_integrity_delete_customer:
  "referential_integrity s \<Longrightarrow> referential_integrity (delete_customer cid s)"
  by (auto simp: referential_integrity_def weekly_payments_delete_customer
      customers_delete_customer list_all_iff)

lemma referential_integrity_save_week_data:
  assumes "referential_integrity s" "cid \<in> set (map fst (customers s))"
  shows "referential_integrity (save_week_data cid w df s)"
proof -
  obtain new where new:
    "weekly_payments (save_week_data cid w df s)
        = filter (\<lambda>p. \<not> in_week cid w p) (weekly_payments s) @ new"
    "list_all (in_week cid w) new"
    using weekly_payments_save_week_data by blast
  from new(2) assms(2) have "list_all (\<lambda>p. customer_id p \<in> set (map fst (customers s))) new"
    by (induction new) (simp_all add: in_week_def)
  with assms(1) new(1) show ?thesis
    by (simp add: referential_integrity_def list_all_filter_keeps)
qed

text \<open>
  C9, amended. From a store in which every payment row names a customer of the
  customers table, every sequence of \<open>add_customer\<close>, \<open>delete_customer\<close> and
  \<open>save_week_data\<close> calls in which each save is for a customer who is in the table
  at the moment of the call (as the program's pages arrange, which take the id from
  the customer list they have just read) ends in such a store. \<open>delete_customer\<close>
  removes the customer's payment rows together with the customer, and
  \<open>add_customer\<close> never changes a payment row.
\<close>

theorem referential_integrity_kept:
  "referential_integrity s \<Longrightarrow> saves_existing ops s \<Longrightarrow> referential_integrity (run ops s)"
proof (induction ops arbitrary: s)
  case Nil
  then show ?case by simp
next
  case (Cons x xs)
  then show ?case
    by (cases x)
      (simp_all add: referential_integrity_add_customer referential_integrity_delete_customer
        referential_integrity_save_week_data)
qed

text \<open>The scenario of C9: a customer added, a week saved, the customer deleted,
  another customer added.\<close>

theorem referential_integrity_kept_witness:
  "referential_integrity init_db
   \<and> saves_existing [AddCustomer ''Ravi'', SaveWeek 1 week_2024_06_03 three_rows,
        DeleteCustomer 1, AddCustomer ''Acme''] init_db
   \<and> referential_integrity (run [AddCustomer ''Ravi'', SaveWeek 1 week_2024_06_03 three_rows,
        DeleteCustomer 1, AddCustomer ''Acme''] init_db)"
proof -
  have h1: "referential_integrity init_db"
    by (simp add: referential_integrity_def init_db_def)
  have s1: "customers (add_customer ''Ravi'' init_db) = [(1, ''Ravi'')]"
    by (simp add: add_customer_def insert_customer_def init_db_def next_rowid_def)
  have h2: "saves_existing [AddCustomer ''Ravi'', SaveWeek 1 week_2024_06_03 three_rows,
        DeleteCustomer 1, AddCustomer ''Acme''] init_db"
    by (simp add: s1)
  from h1 h2 referential_integrity_kept [OF h1 h2] show ?thesis by simp
qed

end
